theory Spec2Isabelle
  imports Main
begin

section \<open>Values, failures and the backing array\<close>

text \<open>
  \<open>oxide::Vec<T>\<close> (include/oxide.hpp) derives from \<open>std::vector<T>\<close> and adds no
  field: its state is the sequence of its elements, a list. A \<open>size_t\<close> is read as a
  natural number; the methods modelled here only compare indices with the size, and the
  one place that computes with an index (\<open>++index_\<close> of the drain iterator) has its
  wrap-around at \<open>2 ^ 64\<close> written out.

  A member function takes the vector and returns what it hands back together with the
  vector it leaves behind. What it hands back is a sum: \<open>Inl\<close> an exception that left the
  function, \<open>Inr\<close> the returned value. Running out of memory is outside the model.
\<close>

type_synonym size_t = nat

type_synonym 'a Vec = "'a list"

datatype exn =
    out_of_range string
  | null_dereference \<comment> \<open>undefined behaviour: access through a null \<open>vec_\<close>\<close>

text \<open>
  \<open>std::reference_wrapper<T>\<close> bound to \<open>this->data()[index]\<close>: the slot of the buffer
  it designates. \<open>read\<close> looks through it, \<open>move_from\<close> is
  \<open>T x = std::move(r.get())\<close>: it yields the element and leaves the slot in the state
  \<open>mv\<close> that the move constructor of \<open>T\<close> leaves its source in (\<open>mv = id\<close> for
  \<open>int\<close>, the empty string for \<open>std::string\<close>).
\<close>

datatype reference_wrapper = ref (slot: size_t)

definition read :: "'a Vec \<Rightarrow> reference_wrapper \<Rightarrow> 'a" where
  "read v r = v ! slot r"

definition move_from :: "('a \<Rightarrow> 'a) \<Rightarrow> reference_wrapper \<Rightarrow> 'a Vec \<Rightarrow> 'a \<times> 'a Vec" where
  "move_from mv r v = (read v r, v[slot r := mv (read v r)])"

text \<open>
  A \<open>DrainIterator\<close> holds a pointer to the vector it drains, or null once it has
  been moved from or destroyed. One vector is in scope, so the pointer has two values.
  The fields \<open>it_vec\<close>, \<open>it_start\<close>, \<open>it_index\<close>, \<open>it_end\<close> are the members
  \<open>vec_\<close>, \<open>start_\<close>, \<open>index_\<close>, \<open>end_\<close> of the iterator, \<open>sent_vec\<close> and \<open>sent_end\<close>
  the members \<open>vec_\<close> and \<open>end_\<close> of the sentinel.
\<close>

datatype vec_ptr = nullptr | this_vec

record DrainIterator =
  it_vec :: vec_ptr
  it_start :: size_t
  it_index :: size_t
  it_end :: size_t

record DrainSentinel =
  sent_vec :: vec_ptr
  sent_end :: size_t

text \<open>
  The operations of \<open>std::vector\<close> that \<open>Vec\<close> calls, under their preconditions:
  \<open>erase(first, last)\<close> with \<open>first \<le> last \<le> size()\<close> closes the gap by moving the tail
  down, \<open>erase(pos)\<close> is \<open>erase(pos, pos + 1)\<close>, \<open>insert(pos, x)\<close> opens a slot at
  \<open>pos \<le> size()\<close>.
\<close>

definition vector_erase :: "size_t \<Rightarrow> size_t \<Rightarrow> 'a Vec \<Rightarrow> 'a Vec" where
  "vector_erase first last' v = take first v @ drop last' v"

definition vector_erase_pos :: "size_t \<Rightarrow> 'a Vec \<Rightarrow> 'a Vec" where
  "vector_erase_pos pos v = vector_erase pos (pos + 1) v"

definition vector_push_back :: "'a \<Rightarrow> 'a Vec \<Rightarrow> 'a Vec" where
  "vector_push_back x v = v @ [x]"

definition vector_pop_back :: "'a Vec \<Rightarrow> 'a Vec" where
  "vector_pop_back v = butlast v"

definition vector_back :: "'a Vec \<Rightarrow> reference_wrapper" where
  "vector_back v = ref (length v - 1)"

definition vector_insert :: "size_t \<Rightarrow> 'a \<Rightarrow> 'a Vec \<Rightarrow> 'a Vec" where
  "vector_insert pos x v = take pos v @ x # drop pos v"

section \<open>Vec\<close>

definition len :: "'a Vec \<Rightarrow> size_t" where
  "len v = length v"

definition truncate :: "size_t \<Rightarrow> 'a Vec \<Rightarrow> (exn + unit) \<times> 'a Vec" where
  "truncate n v =
     (if n < length v then (Inr (), vector_erase n (length v) v) else (Inr (), v))"

definition get :: "size_t \<Rightarrow> 'a Vec \<Rightarrow> (exn + reference_wrapper option) \<times> 'a Vec" where
  "get index v =
     (if index < length v then (Inr (Some (ref index)), v) else (Inr None, v))"

text \<open>\<open>operator[]\<close>: \<open>get\<close>, with the empty answer turned into an exception.\<close>

definition at_index :: "size_t \<Rightarrow> 'a Vec \<Rightarrow> (exn + reference_wrapper) \<times> 'a Vec" where
  "at_index index v =
     (case get index v of
        (Inl e, v') \<Rightarrow> (Inl e, v')
      | (Inr None, v') \<Rightarrow> (Inl (out_of_range ''index out of bounds''), v')
      | (Inr (Some r), v') \<Rightarrow> (Inr r, v'))"

definition push :: "'a \<Rightarrow> 'a Vec \<Rightarrow> (exn + unit) \<times> 'a Vec" where
  "push value v = (Inr (), vector_push_back value v)"

text \<open>
  \<open>pop\<close> and \<open>remove\<close> move the element out of its slot before the slot is dropped
  (\<open>T value = std::move(...)\<close>), so they take \<open>mv\<close> as \<open>move_from\<close> does.
\<close>

definition pop :: "('a \<Rightarrow> 'a) \<Rightarrow> 'a Vec \<Rightarrow> (exn + 'a option) \<times> 'a Vec" where
  "pop mv v =
     (if v = [] then (Inr None, v)
      else let (value, v') = move_from mv (vector_back v) v
           in (Inr (Some value), vector_pop_back v'))"

definition insert_Vec :: "size_t \<Rightarrow> 'a \<Rightarrow> 'a Vec \<Rightarrow> (exn + unit) \<times> 'a Vec" where
  "insert_Vec index value v =
     (if index > length v then (Inl (out_of_range ''insert index out of bounds''), v)
      else (Inr (), vector_insert index value v))"

definition remove :: "('a \<Rightarrow> 'a) \<Rightarrow> size_t \<Rightarrow> 'a Vec \<Rightarrow> (exn + 'a) \<times> 'a Vec" where
  "remove mv index v =
     (if index \<ge> length v then (Inl (out_of_range ''remove index out of bounds''), v)
      else case at_index index v of
             (Inl e, v') \<Rightarrow> (Inl e, v')
           | (Inr r, v') \<Rightarrow>
               let (value, v'') = move_from mv r v'
               in (Inr value, vector_erase_pos index v''))"

text \<open>
  The client of the push/pop round trip: \<open>push\<close> of each value in turn, then \<open>pop\<close>
  a given number of times, collecting what each call hands back.
\<close>

fun push_all :: "'a list \<Rightarrow> 'a Vec \<Rightarrow> 'a Vec" where
  "push_all [] v = v"
| "push_all (x # xs) v = push_all xs (snd (push x v))"

fun pop_times :: "('a \<Rightarrow> 'a) \<Rightarrow> nat \<Rightarrow> 'a Vec \<Rightarrow> (exn + 'a option) list \<times> 'a Vec" where
  "pop_times mv 0 v = ([], v)"
| "pop_times mv (Suc n) v =
     (let (r, v') = pop mv v; (rs, v'') = pop_times mv n v' in (r # rs, v''))"

section \<open>Vec::drain\<close>

text \<open>\<open>DrainIterator(Vec<T>* vec, size_t start, size_t end)\<close>, called with \<open>this\<close>.\<close>

definition DrainIterator_new :: "size_t \<Rightarrow> size_t \<Rightarrow> 'a Vec \<Rightarrow> exn + DrainIterator" where
  "DrainIterator_new start end' v =
     (if start > end' \<or> end' > length v
      then Inl (out_of_range ''drain range out of bounds'')
      else Inr \<lparr>it_vec = this_vec, it_start = start, it_index = start, it_end = end'\<rparr>)"

text \<open>The move constructor: the new iterator, and the source it leaves behind.\<close>

definition DrainIterator_move :: "DrainIterator \<Rightarrow> DrainIterator \<times> DrainIterator" where
  "DrainIterator_move other =
     (\<lparr>it_vec = it_vec other, it_start = it_start other,
       it_index = it_index other, it_end = it_end other\<rparr>,
      other\<lparr>it_vec := nullptr\<rparr>)"

text \<open>The destructor.\<close>

definition DrainIterator_destroy :: "DrainIterator \<Rightarrow> 'a Vec \<Rightarrow> DrainIterator \<times> 'a Vec" where
  "DrainIterator_destroy it v =
     (if it_vec it \<noteq> nullptr
      then (it\<lparr>it_vec := nullptr\<rparr>, vector_erase (it_start it) (it_end it) v)
      else (it, v))"

text \<open>\<open>operator==(const DrainIterator&, const DrainSentinel&)\<close>.\<close>

definition at_sentinel :: "DrainIterator \<Rightarrow> DrainSentinel \<Rightarrow> bool" where
  "at_sentinel it sent = (it_vec it = sent_vec sent \<and> it_index it = sent_end sent)"

text \<open>\<open>operator*\<close>: \<open>std::move((*vec_)[index_])\<close>, a reference the caller may move from.\<close>

definition deref :: "DrainIterator \<Rightarrow> 'a Vec \<Rightarrow> (exn + reference_wrapper) \<times> 'a Vec" where
  "deref it v =
     (if it_vec it = nullptr then (Inl null_dereference, v) else at_index (it_index it) v)"

text \<open>\<open>operator++\<close>.\<close>

definition increment :: "DrainIterator \<Rightarrow> DrainIterator" where
  "increment it = it\<lparr>it_index := (it_index it + 1) mod 2 ^ 64\<rparr>"

text \<open>
  \<open>drain\<close>, for a range already read as the index pair \<open>(start, end)\<close>. The iterator
  is built as a temporary, moved into the returned subrange, and the temporary destroyed.
\<close>

definition drain ::
  "size_t \<Rightarrow> size_t \<Rightarrow> 'a Vec \<Rightarrow> (exn + DrainIterator \<times> DrainSentinel) \<times> 'a Vec" where
  "drain start end' v =
     (if start > end' \<or> end' > length v
      then (Inl (out_of_range ''drain range out of bounds''), v)
      else case DrainIterator_new start end' v of
             Inl e \<Rightarrow> (Inl e, v)
           | Inr tmp \<Rightarrow>
               let (it, tmp') = DrainIterator_move tmp;
                   v' = snd (DrainIterator_destroy tmp' v)
               in (Inr (it, \<lparr>sent_vec = this_vec, sent_end = end'\<rparr>), v'))"

text \<open>
  The clients of \<open>drain\<close>. \<open>take_drained mv k\<close> is the loop
  \<open>for (; it != sent; ++it) { T x = *it; ... }\<close> left after at most \<open>k\<close> elements
  (by \<open>break\<close>, or by reaching the sentinel): it collects the elements taken.
  \<open>drain_scope\<close> is a whole scope around it: \<open>drain\<close>, \<open>begin()\<close> of the subrange
  (which moves the iterator out, since it cannot be copied), the loop, and the destructors
  of the loop's iterator and of the subrange's, which run however the loop was left.
  \<open>drain_discard\<close> drops the subrange without asking for its iterator.
\<close>

fun take_drained ::
  "('a \<Rightarrow> 'a) \<Rightarrow> nat \<Rightarrow> DrainIterator \<Rightarrow> DrainSentinel \<Rightarrow> 'a Vec
   \<Rightarrow> (exn + 'a list) \<times> DrainIterator \<times> 'a Vec" where
  "take_drained mv 0 it sent v = (Inr [], it, v)"
| "take_drained mv (Suc k) it sent v =
     (if at_sentinel it sent then (Inr [], it, v)
      else case deref it v of
             (Inl e, v1) \<Rightarrow> (Inl e, it, v1)
           | (Inr r, v1) \<Rightarrow>
               let (x, v2) = move_from mv r v1;
                   (rest, it', v3) = take_drained mv k (increment it) sent v2
               in (case rest of
                     Inl e \<Rightarrow> (Inl e, it', v3)
                   | Inr xs \<Rightarrow> (Inr (x # xs), it', v3)))"

definition drain_scope ::
  "('a \<Rightarrow> 'a) \<Rightarrow> nat \<Rightarrow> size_t \<Rightarrow> size_t \<Rightarrow> 'a Vec \<Rightarrow> (exn + 'a list) \<times> 'a Vec" where
  "drain_scope mv k start end' v =
     (case drain start end' v of
        (Inl e, v1) \<Rightarrow> (Inl e, v1)
      | (Inr (first, sent), v1) \<Rightarrow>
          let (it, first') = DrainIterator_move first;
              (taken, it', v2) = take_drained mv k it sent v1;
              v3 = snd (DrainIterator_destroy it' v2)
          in (taken, snd (DrainIterator_destroy first' v3)))"

definition drain_discard :: "size_t \<Rightarrow> size_t \<Rightarrow> 'a Vec \<Rightarrow> (exn + unit) \<times> 'a Vec" where
  "drain_discard start end' v =
     (case drain start end' v of
        (Inl e, v1) \<Rightarrow> (Inl e, v1)
      | (Inr (first, sent), v1) \<Rightarrow> (Inr (), snd (DrainIterator_destroy first v1)))"

section \<open>oxide::find\<close>

text \<open>
  \<open>find(range, pred)\<close>. The predicate may have effects: it takes and returns a state
  \<open>'w\<close>. The match is returned by \<open>Some(std::move(item))\<close>, which leaves \<open>mv item\<close> in
  the range (\<open>mv = id\<close> for a range of constant elements).
\<close>

fun find_first ::
  "('a \<Rightarrow> 'a) \<Rightarrow> ('a \<Rightarrow> 'w \<Rightarrow> bool \<times> 'w) \<Rightarrow> 'a list \<Rightarrow> 'w \<Rightarrow> 'a option \<times> 'a list \<times> 'w" where
  "find_first mv pred [] w = (None, [], w)"
| "find_first mv pred (item # rest) w =
     (let (hit, w1) = pred item w
      in if hit then (Some item, mv item # rest, w1)
         else let (r, rest', w2) = find_first mv pred rest w1
              in (r, item # rest', w2))"

text \<open>A predicate that keeps a record of every element it is applied to.\<close>

definition recording :: "('a \<Rightarrow> bool) \<Rightarrow> 'a \<Rightarrow> 'a list \<Rightarrow> bool \<times> 'a list" where
  "recording p item tested = (p item, tested @ [item])"

section \<open>Option\<close>

text \<open>
  The owning class template \<open>Option<T>\<close> keeps a buffer \<open>m_storage\<close> and the flag
  \<open>m_has_value\<close>; the buffer holds a \<open>T\<close> exactly when the flag is set. That is the
  type \<open>'a option\<close>, with \<open>Option()\<close> as \<open>None\<close> and \<open>Option(U&& value)\<close> as \<open>Some\<close>.
\<close>

type_synonym 'a Option = "'a option"

definition Option_none :: "'a Option" where
  "Option_none = None"

definition Option_of :: "'a \<Rightarrow> 'a Option" where
  "Option_of value = Some value"

definition has_value :: "'a Option \<Rightarrow> bool" where
  "has_value opt = (opt \<noteq> None)"

datatype fatal = aborted string

text \<open>
  Modelled from the spec: \<open>panic\<close> is declared in \<open>output.hpp\<close>, which is not among the
  sources. The specification calls an access to an absent value a fatal contract
  violation, an abort-class failure that is not recoverable: \<open>panic\<close> does not return,
  and the program ends with the message.
\<close>

definition panic :: "string \<Rightarrow> fatal + 'a" where
  "panic msg = Inl (aborted msg)"

text \<open>\<open>value()\<close> and \<open>unwrap()\<close>: what they hand back, and the option they leave.\<close>

definition value_of :: "'a Option \<Rightarrow> (fatal + 'a) \<times> 'a Option" where
  "value_of opt =
     (case opt of
        None \<Rightarrow> (panic ''called Option::value() on None'', opt)
      | Some x \<Rightarrow> (Inr x, opt))"

definition unwrap :: "'a Option \<Rightarrow> (fatal + 'a) \<times> 'a Option" where
  "unwrap opt = value_of opt"

text \<open>
  \<open>and_then\<close>, in its overload for an expiring receiver (\<open>&&\<close>) and for a constant one
  (\<open>const&\<close>). The function argument may have effects: it takes and returns a state
  \<open>'w\<close>. The two overloads differ in how the held value is passed (\<open>T&&\<close> or
  \<open>const T&\<close>), not in what is computed.
\<close>

definition and_then_rvalue ::
  "('a \<Rightarrow> 'w \<Rightarrow> 'b Option \<times> 'w) \<Rightarrow> 'a Option \<Rightarrow> 'w \<Rightarrow> (fatal + 'b Option) \<times> 'w" where
  "and_then_rvalue f opt w =
     (if \<not> has_value opt then (Inr Option_none, w)
      else case fst (value_of opt) of
             Inl p \<Rightarrow> (Inl p, w)
           | Inr x \<Rightarrow> (let (r, w1) = f x w in (Inr r, w1)))"

definition and_then_const ::
  "('a \<Rightarrow> 'w \<Rightarrow> 'b Option \<times> 'w) \<Rightarrow> 'a Option \<Rightarrow> 'w \<Rightarrow> (fatal + 'b Option) \<times> 'w" where
  "and_then_const f opt w =
     (if \<not> has_value opt then (Inr Option_none, w)
      else case fst (value_of opt) of
             Inl p \<Rightarrow> (Inl p, w)
           | Inr x \<Rightarrow> (let (r, w1) = f x w in (Inr r, w1)))"

section \<open>Properties of the backing array\<close>

lemma length_erase:
  "first \<le> last' \<Longrightarrow> last' \<le> length v \<Longrightarrow>
   length (vector_erase first last' v) = length v - (last' - first)"
  by (simp add: vector_erase_def)

lemma nth_erase_before:
  "i < first \<Longrightarrow> first \<le> length v \<Longrightarrow> vector_erase first last' v ! i = v ! i"
  by (simp add: vector_erase_def nth_append)

lemma nth_erase_after:
  "first \<le> i \<Longrightarrow> first \<le> last' \<Longrightarrow> last' \<le> length v \<Longrightarrow>
   vector_erase first last' v ! i = v ! (i + (last' - first))"
  by (simp add: vector_erase_def nth_append add.commute)

section \<open>Vec::truncate\<close>

text \<open>
  Claim C9. \<open>truncate(len)\<close> returns normally for every \<open>len\<close>. When
  \<open>len \<ge> length()\<close> the vector is left as it was; otherwise it is left with exactly
  \<open>len\<close> elements, which are its first \<open>len\<close> elements in their order.
\<close>

theorem truncate_shortens_from_the_end:
  "fst (truncate n v) = Inr ()
   \<and> (length v \<le> n \<longrightarrow> snd (truncate n v) = v)
   \<and> (n < length v \<longrightarrow>
        length (snd (truncate n v)) = n
        \<and> (\<forall>i < n. snd (truncate n v) ! i = v ! i)
        \<and> snd (truncate n v) @ drop n v = v)"
  by (simp add: truncate_def vector_erase_def)

theorem truncate_shortens_from_the_end_witness:
  "length [10, 20, 30 :: int] \<le> 7 \<and> truncate 7 [10, 20, 30 :: int] = (Inr (), [10, 20, 30])
   \<and> 1 < length [10, 20, 30 :: int] \<and> truncate 1 [10, 20, 30 :: int] = (Inr (), [10])"
  using truncate_shortens_from_the_end [of 7 "[10, 20, 30 :: int]"]
        truncate_shortens_from_the_end [of 1 "[10, 20, 30 :: int]"]
  by (simp add: truncate_def vector_erase_def)

section \<open>Vec::get\<close>

text \<open>
  Claim C3. \<open>get(index)\<close> returns normally and leaves the vector as it was. For
  \<open>index < length()\<close> it hands back a present option whose reference designates the
  element at \<open>index\<close>; for every \<open>index \<ge> length()\<close> it hands back the absent option.
\<close>

theorem get_present_iff_in_bounds:
  "(index < len v \<longrightarrow>
      get index v = (Inr (Some (ref index)), v) \<and> read v (ref index) = v ! index)
   \<and> (len v \<le> index \<longrightarrow> get index v = (Inr None, v))"
  by (simp add: get_def len_def read_def)

theorem get_present_iff_in_bounds_witness:
  "1 < len [10, 20, 30 :: int]
   \<and> get 1 [10, 20, 30 :: int] = (Inr (Some (ref 1)), [10, 20, 30])
   \<and> read [10, 20, 30 :: int] (ref 1) = 20
   \<and> len [10, 20, 30 :: int] \<le> 3
   \<and> get 3 [10, 20, 30 :: int] = (Inr None, [10, 20, 30])
   \<and> get 18446744073709551615 [10, 20, 30 :: int] = (Inr None, [10, 20, 30])"
  using get_present_iff_in_bounds [of 1 "[10, 20, 30 :: int]"]
        get_present_iff_in_bounds [of 3 "[10, 20, 30 :: int]"]
        get_present_iff_in_bounds [of 18446744073709551615 "[10, 20, 30 :: int]"]
  by (simp add: len_def)

section \<open>Vec::insert\<close>

lemma length_vector_insert:
  "pos \<le> length v \<Longrightarrow> length (vector_insert pos x v) = length v + 1"
  by (simp add: vector_insert_def)

lemma nth_vector_insert_at:
  "pos \<le> length v \<Longrightarrow> vector_insert pos x v ! pos = x"
  by (simp add: vector_insert_def nth_append)

lemma nth_vector_insert_before:
  "j < pos \<Longrightarrow> pos \<le> length v \<Longrightarrow> vector_insert pos x v ! j = v ! j"
  by (simp add: vector_insert_def nth_append)

lemma nth_vector_insert_after:
  "pos \<le> j \<Longrightarrow> j < length v \<Longrightarrow> vector_insert pos x v ! Suc j = v ! j"
  by (simp add: vector_insert_def nth_append Suc_diff_le)

text \<open>
  Claim C4. For \<open>index \<le> length()\<close>, \<open>insert(index, value)\<close> returns normally; afterwards
  the length is one more, \<open>get(index)\<close> designates \<open>value\<close>, the elements below \<open>index\<close>
  are where they were and the element that was at \<open>j \<ge> index\<close> is at \<open>j + 1\<close>. For
  \<open>index > length()\<close> it throws \<open>std::out_of_range\<close> and the vector is as it was.
\<close>

theorem insert_shifts_up_or_throws:
  "(index \<le> len v \<longrightarrow>
      (\<exists>v'. insert_Vec index value v = (Inr (), v')
         \<and> len v' = len v + 1
         \<and> get index v' = (Inr (Some (ref index)), v')
         \<and> read v' (ref index) = value
         \<and> (\<forall>j < index. v' ! j = v ! j)
         \<and> (\<forall>j. index \<le> j \<and> j < len v \<longrightarrow> v' ! (j + 1) = v ! j)))
   \<and> (len v < index \<longrightarrow>
      insert_Vec index value v = (Inl (out_of_range ''insert index out of bounds''), v))"
  by (simp add: insert_Vec_def len_def get_def read_def length_vector_insert
      nth_vector_insert_at nth_vector_insert_before nth_vector_insert_after)

theorem insert_shifts_up_or_throws_witness:
  "1 \<le> len [10, 20, 30 :: int]
   \<and> insert_Vec 1 15 [10, 20, 30 :: int] = (Inr (), [10, 15, 20, 30])
   \<and> insert_Vec 3 40 [10, 20, 30 :: int] = (Inr (), [10, 20, 30, 40])
   \<and> len [10, 20, 30 :: int] < 4
   \<and> insert_Vec 4 40 [10, 20, 30 :: int]
       = (Inl (out_of_range ''insert index out of bounds''), [10, 20, 30])"
  using insert_shifts_up_or_throws [of 1 "[10, 20, 30 :: int]" 15]
        insert_shifts_up_or_throws [of 3 "[10, 20, 30 :: int]" 40]
        insert_shifts_up_or_throws [of 4 "[10, 20, 30 :: int]" 40]
  by (simp add: len_def insert_Vec_def vector_insert_def)

section \<open>Vec::remove\<close>

lemma at_index_in_bounds:
  "index < length v \<Longrightarrow> at_index index v = (Inr (ref index), v)"
  by (simp add: at_index_def get_def)

lemma remove_in_bounds:
  "index < length v \<Longrightarrow> remove mv index v = (Inr (v ! index), take index v @ drop (Suc index) v)"
  by (simp add: remove_def at_index_in_bounds move_from_def read_def
      vector_erase_pos_def vector_erase_def)

text \<open>
  Claim C5. For \<open>index < length()\<close>, \<open>remove(index)\<close> hands back the element that was at
  \<open>index\<close>; afterwards the length is one less, the elements below \<open>index\<close> are where
  they were and the element that was at \<open>j > index\<close> is at \<open>j - 1\<close>. For
  \<open>index \<ge> length()\<close> it throws \<open>std::out_of_range\<close> and the vector is as it was.
\<close>

theorem remove_shifts_down_or_throws:
  "(index < len v \<longrightarrow>
      (\<exists>v'. remove mv index v = (Inr (v ! index), v')
         \<and> len v' + 1 = len v
         \<and> (\<forall>j < index. v' ! j = v ! j)
         \<and> (\<forall>j. index < j \<and> j < len v \<longrightarrow> v' ! (j - 1) = v ! j)))
   \<and> (len v \<le> index \<longrightarrow>
      remove mv index v = (Inl (out_of_range ''remove index out of bounds''), v))"
proof (intro conjI impI)
  assume inb: "index < len v"
  let ?v' = "take index v @ drop (Suc index) v"
  have r: "remove mv index v = (Inr (v ! index), ?v')"
    using inb by (simp add: remove_in_bounds len_def)
  have l: "len ?v' + 1 = len v"
    using inb by (simp add: len_def)
  have b: "\<forall>j < index. ?v' ! j = v ! j"
    using inb by (simp add: nth_append len_def)
  have a: "\<forall>j. index < j \<and> j < len v \<longrightarrow> ?v' ! (j - 1) = v ! j"
  proof (intro allI impI)
    fix j assume j: "index < j \<and> j < len v"
    then have "\<not> j - 1 < length (take index v)" and "length (take index v) = index"
      using inb by (auto simp add: len_def)
    then have "?v' ! (j - 1) = drop (Suc index) v ! (j - 1 - index)"
      by (simp only: nth_append if_False)
    also have "\<dots> = v ! (Suc index + (j - 1 - index))"
      using j by (simp add: len_def)
    also have "Suc index + (j - 1 - index) = j"
      using j by simp
    finally show "?v' ! (j - 1) = v ! j" .
  qed
  from r l b a
  show "\<exists>v'. remove mv index v = (Inr (v ! index), v') \<and> len v' + 1 = len v
      \<and> (\<forall>j < index. v' ! j = v ! j)
      \<and> (\<forall>j. index < j \<and> j < len v \<longrightarrow> v' ! (j - 1) = v ! j)"
    by blast
next
  assume "len v \<le> index"
  then show "remove mv index v = (Inl (out_of_range ''remove index out of bounds''), v)"
    by (simp add: remove_def len_def)
qed

theorem remove_shifts_down_or_throws_witness:
  "1 < len [10, 20, 30 :: int]
   \<and> remove (\<lambda>x. 0) 1 [10, 20, 30 :: int] = (Inr 20, [10, 30])
   \<and> len [10, 20, 30 :: int] \<le> 3
   \<and> remove (\<lambda>x. 0) 3 [10, 20, 30 :: int]
       = (Inl (out_of_range ''remove index out of bounds''), [10, 20, 30])"
  using remove_shifts_down_or_throws [of 1 "[10, 20, 30 :: int]" "\<lambda>x. 0"]
        remove_shifts_down_or_throws [of 3 "[10, 20, 30 :: int]" "\<lambda>x. 0"]
  by (simp add: len_def remove_in_bounds)

section \<open>Vec::push and Vec::pop\<close>

lemma push_all_appends: "push_all xs v = v @ xs"
  by (induction xs arbitrary: v) (simp_all add: push_def vector_push_back_def)

lemma pop_last: "pop mv (v @ [x]) = (Inr (Some x), v)"
  by (simp add: pop_def move_from_def read_def vector_back_def vector_pop_back_def)

lemma pop_times_append:
  "pop_times mv (length xs) (v @ xs) = (map (\<lambda>x. Inr (Some x)) (rev xs), v)"
proof (induction xs rule: rev_induct)
  case Nil
  show ?case by simp
next
  case (snoc x xs)
  have "pop_times mv (length (xs @ [x])) (v @ xs @ [x])
        = pop_times mv (Suc (length xs)) ((v @ xs) @ [x])"
    by simp
  also have "\<dots> = (let (rs, v'') = pop_times mv (length xs) (v @ xs)
                   in (Inr (Some x) # rs, v''))"
    by (simp only: pop_times.simps pop_last Let_def prod.case)
  also have "\<dots> = (map (\<lambda>x. Inr (Some x)) (rev (xs @ [x])), v)"
    by (simp add: snoc.IH)
  finally show ?case .
qed

text \<open>
  Claim C6. Pushing the values \<open>xs\<close> onto an empty vector and calling \<open>pop()\<close>
  \<open>length xs\<close> times hands back the values in reverse order, each as a present option,
  and leaves the vector empty; \<open>pop()\<close> on an empty vector hands back the absent option
  and leaves it empty.
\<close>

theorem push_then_pop_reverses:
  "pop_times mv (length xs) (push_all xs []) = (map (\<lambda>x. Inr (Some x)) (rev xs), [])
   \<and> pop mv [] = (Inr None, [])"
  using pop_times_append [of mv xs "[]"]
  by (simp add: push_all_appends pop_def)

section \<open>Vec::drain\<close>

lemma drain_in_range:
  "start \<le> end' \<Longrightarrow> end' \<le> length v \<Longrightarrow>
   drain start end' v =
     (Inr (\<lparr>it_vec = this_vec, it_start = start, it_index = start, it_end = end'\<rparr>,
           \<lparr>sent_vec = this_vec, sent_end = end'\<rparr>), v)"
  by (simp add: drain_def DrainIterator_new_def DrainIterator_move_def
      DrainIterator_destroy_def)

lemma take_drained_in_range:
  "i \<le> e \<Longrightarrow> e \<le> length v \<Longrightarrow> length v < 2 ^ 64 \<Longrightarrow>
   \<exists>i' v'. take_drained mv k \<lparr>it_vec = this_vec, it_start = s, it_index = i, it_end = e\<rparr>
              \<lparr>sent_vec = this_vec, sent_end = e\<rparr> v
            = (Inr (take k (take (e - i) (drop i v))),
               \<lparr>it_vec = this_vec, it_start = s, it_index = i', it_end = e\<rparr>, v')
          \<and> length v' = length v \<and> take i v' = take i v \<and> drop e v' = drop e v"
proof (induction k arbitrary: i v)
  case 0
  show ?case by simp
next
  case (Suc k)
  show ?case
  proof (cases "i = e")
    case True
    then show ?thesis by (simp add: at_sentinel_def)
  next
    case False
    with Suc.prems have lt: "i < e" and inb: "i < length v" by simp_all
    let ?v2 = "v[i := mv (v ! i)]"
    have wrap: "increment \<lparr>it_vec = this_vec, it_start = s, it_index = i, it_end = e\<rparr>
                = \<lparr>it_vec = this_vec, it_start = s, it_index = Suc i, it_end = e\<rparr>"
      using inb Suc.prems(3) by (simp add: increment_def)
    from Suc.IH [of "Suc i" ?v2] lt Suc.prems
    obtain i' v' where
      run: "take_drained mv k \<lparr>it_vec = this_vec, it_start = s, it_index = Suc i, it_end = e\<rparr>
              \<lparr>sent_vec = this_vec, sent_end = e\<rparr> ?v2
            = (Inr (take k (take (e - Suc i) (drop (Suc i) ?v2))),
               \<lparr>it_vec = this_vec, it_start = s, it_index = i', it_end = e\<rparr>, v')"
      and len: "length v' = length ?v2"
      and pre: "take (Suc i) v' = take (Suc i) ?v2"
      and post: "drop e v' = drop e ?v2"
      by auto
    have step: "take_drained mv (Suc k) \<lparr>it_vec = this_vec, it_start = s, it_index = i, it_end = e\<rparr>
              \<lparr>sent_vec = this_vec, sent_end = e\<rparr> v
            = (Inr (v ! i # take k (take (e - Suc i) (drop (Suc i) ?v2))),
               \<lparr>it_vec = this_vec, it_start = s, it_index = i', it_end = e\<rparr>, v')"
      using False inb
      by (simp add: at_sentinel_def deref_def at_index_in_bounds move_from_def read_def
          wrap run)
    have taken: "v ! i # take k (take (e - Suc i) (drop (Suc i) ?v2))
                 = take (Suc k) (take (e - i) (drop i v))"
    proof -
      have "drop i v = v ! i # drop (Suc i) v"
        using inb by (simp add: Cons_nth_drop_Suc)
      moreover have "e - i = Suc (e - Suc i)"
        using lt by simp
      ultimately show ?thesis by simp
    qed
    have pre': "take i v' = take i v"
    proof -
      have "take i v' = take i (take (Suc i) v')" by (simp add: min_def)
      also have "\<dots> = take i (take (Suc i) ?v2)" by (simp only: pre)
      also have "\<dots> = take i v" by (simp add: min_def)
      finally show ?thesis .
    qed
    have post': "drop e v' = drop e v"
      using post lt by simp
    from step taken len pre' post' show ?thesis by auto
  qed
qed


lemma destroy_attached:
  "DrainIterator_destroy \<lparr>it_vec = this_vec, it_start = s, it_index = i, it_end = e\<rparr> v
   = (\<lparr>it_vec = nullptr, it_start = s, it_index = i, it_end = e\<rparr>, vector_erase s e v)"
  by (simp add: DrainIterator_destroy_def)

lemma destroy_detached:
  "DrainIterator_destroy \<lparr>it_vec = nullptr, it_start = s, it_index = i, it_end = e\<rparr> v
   = (\<lparr>it_vec = nullptr, it_start = s, it_index = i, it_end = e\<rparr>, v)"
  by (simp add: DrainIterator_destroy_def)

lemma drain_scope_in_range:
  assumes "a \<le> b" and "b \<le> length v" and "length v < 2 ^ 64"
  shows "drain_scope mv k a b v = (Inr (take k (take (b - a) (drop a v))), take a v @ drop b v)"
proof -
  from take_drained_in_range [of a b v mv k a] assms
  obtain i' v' where
    run: "take_drained mv k \<lparr>it_vec = this_vec, it_start = a, it_index = a, it_end = b\<rparr>
              \<lparr>sent_vec = this_vec, sent_end = b\<rparr> v
            = (Inr (take k (take (b - a) (drop a v))),
               \<lparr>it_vec = this_vec, it_start = a, it_index = i', it_end = b\<rparr>, v')"
    and pre: "take a v' = take a v" and post: "drop b v' = drop b v"
    by auto
  have "drain_scope mv k a b v
        = (Inr (take k (take (b - a) (drop a v))), vector_erase a b v')"
    using assms(1,2)
    by (simp add: drain_scope_def drain_in_range DrainIterator_move_def run
        destroy_attached destroy_detached)
  then show ?thesis
    by (simp add: vector_erase_def pre post)
qed

lemma drain_discard_in_range:
  assumes "a \<le> b" and "b \<le> length v"
  shows "drain_discard a b v = (Inr (), take a v @ drop b v)"
  using assms
  by (simp add: drain_discard_def drain_in_range destroy_attached vector_erase_def)

text \<open>
  Claim C1. For a vector of length \<open>n\<close> and a range with \<open>a \<le> b \<le> n\<close>, a scope that
  drains \<open>[a, b)\<close> and takes \<open>k\<close> of its elements before the iterator is destroyed
  leaves the same vector for every \<open>k\<close> (none taken, some, or all of them), the one that
  dropping the subrange unused leaves: the original sequence with the indices
  \<open>[a, b)\<close> cut out. Its length is \<open>n - (b - a)\<close>, the elements below \<open>a\<close> are where
  they were and the element now at \<open>i \<ge> a\<close> is the one that was at \<open>i + (b - a)\<close>. The
  elements taken are the first \<open>k\<close> of the range, and the outcome does not depend on the
  state a moved-from element is left in.
\<close>

theorem drain_excises_range:
  assumes "a \<le> b" and "b \<le> len v" and "len v < 2 ^ 64"
  shows "\<exists>v'. drain_scope mv k a b v = (Inr (take k (take (b - a) (drop a v))), v')
            \<and> drain_discard a b v = (Inr (), v')
            \<and> v' = take a v @ drop b v
            \<and> len v' = len v - (b - a)
            \<and> (\<forall>i < a. v' ! i = v ! i)
            \<and> (\<forall>i. a \<le> i \<and> i < len v' \<longrightarrow> v' ! i = v ! (i + (b - a)))"
proof -
  let ?v' = "take a v @ drop b v"
  have e: "?v' = vector_erase a b v"
    by (simp add: vector_erase_def)
  have "drain_scope mv k a b v = (Inr (take k (take (b - a) (drop a v))), ?v')"
    using assms by (simp add: drain_scope_in_range len_def)
  moreover have "drain_discard a b v = (Inr (), ?v')"
    using assms by (simp add: drain_discard_in_range len_def)
  moreover have "len ?v' = len v - (b - a)"
    using assms length_erase [of a b v] by (simp add: e len_def)
  moreover have "\<forall>i < a. ?v' ! i = v ! i"
    using assms nth_erase_before [of _ a v b] by (simp add: e len_def)
  moreover have "\<forall>i. a \<le> i \<and> i < len ?v' \<longrightarrow> ?v' ! i = v ! (i + (b - a))"
    using assms nth_erase_after [of a _ b v] by (simp add: e len_def)
  ultimately show ?thesis by blast
qed

theorem drain_excises_range_witness:
  "(1::nat) \<le> 3 \<and> 3 \<le> len [10, 20, 30, 40, 50 :: int]
   \<and> len [10, 20, 30, 40, 50 :: int] < 2 ^ 64
   \<and> drain_scope (\<lambda>x. 0) 1 1 3 [10, 20, 30, 40, 50 :: int] = (Inr [20], [10, 40, 50])
   \<and> drain_scope (\<lambda>x. 0) 2 1 3 [10, 20, 30, 40, 50 :: int] = (Inr [20, 30], [10, 40, 50])
   \<and> drain_scope (\<lambda>x. 0) 0 1 3 [10, 20, 30, 40, 50 :: int] = (Inr [], [10, 40, 50])
   \<and> drain_discard 1 3 [10, 20, 30, 40, 50 :: int] = (Inr (), [10, 40, 50])"
proof -
  have h: "(1::nat) \<le> 3" "3 \<le> len [10, 20, 30, 40, 50 :: int]"
    "len [10, 20, 30, 40, 50 :: int] < 2 ^ 64"
    by (simp_all add: len_def)
  show ?thesis
    using h drain_excises_range [OF h, of "\<lambda>x. 0" 1]
      drain_excises_range [OF h, of "\<lambda>x. 0" 2]
      drain_excises_range [OF h, of "\<lambda>x. 0" 0]
    by simp
qed

text \<open>
  Claim C2. \<open>drain([a, b))\<close> with \<open>a > b\<close> or \<open>b > length()\<close> throws
  \<open>std::out_of_range\<close> at once and leaves the vector as it was; a scope around the call
  is left by the exception with the vector untouched.
\<close>

theorem drain_rejects_bad_range:
  assumes "b < a \<or> len v < b"
  shows "drain a b v = (Inl (out_of_range ''drain range out of bounds''), v)
       \<and> drain_scope mv k a b v = (Inl (out_of_range ''drain range out of bounds''), v)
       \<and> drain_discard a b v = (Inl (out_of_range ''drain range out of bounds''), v)"
proof -
  have d: "drain a b v = (Inl (out_of_range ''drain range out of bounds''), v)"
    using assms by (auto simp add: drain_def len_def)
  then show ?thesis
    by (simp add: drain_scope_def drain_discard_def)
qed

theorem drain_rejects_bad_range_witness:
  "((1::nat) < 2 \<or> len [10, 20, 30 :: int] < 1)
   \<and> drain 2 1 [10, 20, 30 :: int]
       = (Inl (out_of_range ''drain range out of bounds''), [10, 20, 30])
   \<and> ((4::nat) < 1 \<or> len [10, 20, 30 :: int] < 4)
   \<and> drain 1 4 [10, 20, 30 :: int]
       = (Inl (out_of_range ''drain range out of bounds''), [10, 20, 30])"
proof -
  have h1: "(1::nat) < 2 \<or> len [10, 20, 30 :: int] < 1" by simp
  have h2: "(4::nat) < 1 \<or> len [10, 20, 30 :: int] < 4" by (simp add: len_def)
  show ?thesis
    using h1 h2 drain_rejects_bad_range [OF h1] drain_rejects_bad_range [OF h2]
    by simp
qed

section \<open>oxide::find\<close>

lemma find_first_no_match:
  "\<forall>y \<in> set xs. \<not> p y \<Longrightarrow> find_first mv (recording p) xs tested = (None, xs, tested @ xs)"
  by (induction xs arbitrary: tested) (simp_all add: recording_def)

lemma find_first_match:
  "p x \<Longrightarrow> \<forall>y \<in> set pre. \<not> p y \<Longrightarrow>
   find_first mv (recording p) (pre @ x # post) tested
   = (Some x, pre @ mv x # post, tested @ pre @ [x])"
  by (induction pre arbitrary: tested) (simp_all add: recording_def)

text \<open>
  Claim C10. If \<open>x\<close> satisfies the predicate and no element before it does, \<open>find\<close>
  hands back the present option holding \<open>x\<close>, and the predicate has been applied to
  the elements up to and including \<open>x\<close>, in order, and to none after it. If no element
  satisfies the predicate, \<open>find\<close> hands back the absent option, having tested every
  element.
\<close>

theorem find_returns_first_match:
  "(p x \<and> (\<forall>y \<in> set pre. \<not> p y) \<longrightarrow>
      find_first mv (recording p) (pre @ x # post) tested
      = (Some x, pre @ mv x # post, tested @ pre @ [x]))
   \<and> ((\<forall>y \<in> set xs. \<not> p y) \<longrightarrow>
      find_first mv (recording p) xs tested = (None, xs, tested @ xs))"
  by (simp add: find_first_no_match find_first_match)

theorem find_returns_first_match_witness:
  "find_first id (recording (\<lambda>n. 15 < n)) [10, 20, 30, 5 :: int] [] = (Some 20, [10, 20, 30, 5], [10, 20])
   \<and> find_first id (recording (\<lambda>n. 15 < n)) [1, 2, 3 :: int] [] = (None, [1, 2, 3], [1, 2, 3])"
  using find_returns_first_match [of "\<lambda>n. 15 < n" "20 :: int" "[10]" id "[30, 5]" "[]" "[1, 2, 3]"]
  by simp

section \<open>Option::and_then\<close>

text \<open>
  Claim C7. On an absent option, \<open>and_then(f)\<close> hands back the absent option of the
  result type of \<open>f\<close> and leaves the state \<open>f\<close> acts on as it was, for every \<open>f\<close>:
  \<open>f\<close> is not called. On a present option it hands back what \<open>f\<close> returns for the
  held value, with the effect of that one call. Both overloads.
\<close>

theorem and_then_skips_absent:
  "and_then_rvalue f Option_none w = (Inr Option_none, w)
   \<and> and_then_const f Option_none w = (Inr Option_none, w)
   \<and> and_then_rvalue f (Option_of x) w = (Inr (fst (f x w)), snd (f x w))
   \<and> and_then_const f (Option_of x) w = (Inr (fst (f x w)), snd (f x w))"
  by (simp add: and_then_rvalue_def and_then_const_def has_value_def Option_none_def
      Option_of_def value_of_def split_beta)

theorem and_then_skips_absent_witness:
  "and_then_rvalue (\<lambda>x calls. (Option_of (x + 1), Suc calls)) (Option_none :: int Option) 0
     = (Inr Option_none, 0)
   \<and> and_then_const (\<lambda>x calls. (Option_of (x + 1), Suc calls)) (Option_none :: int Option) 0
     = (Inr Option_none, 0)
   \<and> and_then_rvalue (\<lambda>x calls. (Option_of (x + 1), Suc calls)) (Option_of (41 :: int)) 0
     = (Inr (Option_of 42), 1)
   \<and> and_then_const (\<lambda>x calls. (Option_of (x + 1), Suc calls)) (Option_of (41 :: int)) 0
     = (Inr (Option_of 42), 1)"
  using and_then_skips_absent [of "\<lambda>x calls. (Option_of (x + 1), Suc calls)" "0 :: nat" "41 :: int"]
  by simp

section \<open>Option::value and Option::unwrap\<close>

text \<open>
  Claim C8. \<open>value()\<close> and \<open>unwrap()\<close> on an option built from \<open>v\<close> hand back \<open>v\<close> and
  leave the option as it was, so a second call hands back \<open>v\<close> again. On an absent
  option they end in \<open>panic\<close> with the message of \<open>value()\<close>, and hand back no value.
  The accessors return a reference; a caller that assigns or moves through it performs a
  further operation, which is not part of the accessor.
\<close>

theorem value_of_present_or_panic:
  "value_of (Option_of v) = (Inr v, Option_of v)
   \<and> unwrap (Option_of v) = (Inr v, Option_of v)
   \<and> value_of (snd (value_of (Option_of v))) = (Inr v, Option_of v)
   \<and> unwrap (snd (unwrap (Option_of v))) = (Inr v, Option_of v)
   \<and> value_of (Option_none :: 'a Option)
       = (Inl (aborted ''called Option::value() on None''), Option_none)
   \<and> unwrap (Option_none :: 'a Option)
       = (Inl (aborted ''called Option::value() on None''), Option_none)"
  by (simp add: value_of_def unwrap_def Option_of_def Option_none_def panic_def)

end
